theory Spec2Isabelle
  imports Complex_Main
begin

section \<open>Data model (types.ts)\<close>

text \<open>
  The Monte Carlo engine of services/monteCarlo.ts prices a European call over a
  5 x 5 x M grid of (spot, volatility, maturity) scenarios.

  A JavaScript \<open>number\<close> is modelled as a \<open>real\<close>: rounding, overflow to Infinity and
  NaN are outside the model. Two places of the source produce NaN from finite input,
  where the reals give a number instead: \<open>sumPayoff / nPaths\<close> when \<open>nPaths = 0\<close>
  (0/0), and \<open>Math.sqrt(t)\<close> for a negative maturity. No theorem below depends on the
  numeric value the model gives there. The path count \<open>nPaths\<close> is an \<open>int\<close> (the
  interface documents an integer count; it may be zero or negative), and loop indices are
  natural numbers.
\<close>

record SimulationParams =
  r :: real
  q :: real
  s0 :: real
  s0Step :: real
  vol :: real
  volStep :: real
  nPaths :: int
  maturities :: "real list"
  strikes :: "real list"

record ScenarioRow =
  s0 :: real
  vol :: real
  t :: real
  k :: real
  price :: real
  stdErr :: real

text \<open>
  \<open>detailedPaths\<close> is a JavaScript array of arrays. A slot is \<open>Some sample\<close>; \<open>None\<close> is
  a hole, which an assignment beyond the current length leaves behind.
\<close>

record SimulationResult =
  results :: "ScenarioRow list"
  centralDistribution :: "real list"
  detailedPaths :: "real list option list"

text \<open>The only exception the engine can raise: \<open>new Float64Array(n)\<close> with \<open>n < 0\<close>.\<close>

datatype error = RangeError

section \<open>Gaussian sampler\<close>

text \<open>
  \<open>Math.random()\<close> is a global source of uniform draws. It is modelled by the sequence
  \<open>U\<close> of the values it will return and by the number \<open>pos\<close> of draws consumed so far.

  \<open>drawNonZero U u pos\<close> is the loop \<open>while (u === 0) u = Math.random();\<close>. It does not
  return when every later draw is zero: not returning is \<open>None\<close>.
\<close>

partial_function (option) drawNonZero :: "(nat \<Rightarrow> real) \<Rightarrow> real \<Rightarrow> nat \<Rightarrow> (real \<times> nat) option" where
  "drawNonZero U u pos = (if u = 0 then drawNonZero U (U pos) (Suc pos) else Some (u, pos))"

definition gaussianRandom :: "(nat \<Rightarrow> real) \<Rightarrow> nat \<Rightarrow> (real \<times> nat) option" where
  "gaussianRandom U pos =
     (case drawNonZero U 0 pos of
        None \<Rightarrow> None
      | Some (u, pos1) \<Rightarrow>
          (case drawNonZero U 0 pos1 of
             None \<Rightarrow> None
           | Some (v, pos2) \<Rightarrow> Some (sqrt (- 2 * ln u) * cos (2 * pi * v), pos2)))"

text \<open>
  A random source lets the sampler return when it never stays at zero for ever: after
  every position there is a non-zero draw.
\<close>

definition fairSource :: "(nat \<Rightarrow> real) \<Rightarrow> bool" where
  "fairSource U = (\<forall>n. \<exists>m. n \<le> m \<and> U m \<noteq> 0)"

section \<open>Scenario grid generators\<close>

definition generateGeometricScenarios :: "real \<Rightarrow> real \<Rightarrow> real list" where
  "generateGeometricScenarios pivot stepPercent =
     (let step = stepPercent / 100 in
      [pivot * (1 - step) ^ 2,
       pivot * (1 - step),
       pivot,
       pivot * (1 + step),
       pivot * (1 + step) ^ 2])"

definition generateArithmeticScenarios :: "real \<Rightarrow> real \<Rightarrow> real list" where
  "generateArithmeticScenarios pivot stepPercent =
     (let step = stepPercent / 100 in
      [pivot - 2 * step,
       pivot - step,
       pivot,
       pivot + step,
       pivot + 2 * step])"

section \<open>Detailed-column mapper\<close>

text \<open>The source returns \<open>-1\<close> for a scenario that is not one of the detailed columns.\<close>

definition getDetailedColumnIndex :: "int \<Rightarrow> int \<Rightarrow> int \<Rightarrow> int" where
  "getDetailedColumnIndex sIdx vIdx tIdx =
     (if sIdx = 2 \<and> vIdx = 2 then tIdx
      else
        let baseOffset = 3 + tIdx * 8 in
        if sIdx = 1 \<and> vIdx = 2 then baseOffset + 0
        else if sIdx = 1 \<and> vIdx = 1 then baseOffset + 1
        else if sIdx = 1 \<and> vIdx = 3 then baseOffset + 2
        else if sIdx = 2 \<and> vIdx = 1 then baseOffset + 3
        else if sIdx = 2 \<and> vIdx = 3 then baseOffset + 4
        else if sIdx = 3 \<and> vIdx = 2 then baseOffset + 5
        else if sIdx = 3 \<and> vIdx = 1 then baseOffset + 6
        else if sIdx = 3 \<and> vIdx = 3 then baseOffset + 7
        else - 1)"

text \<open>
  The enumeration as the specification tables it: the pivot pair takes the column of the
  maturity index, eight further pairs take an offset within the block of the maturity.
\<close>

definition offsetTable :: "((int \<times> int) \<times> int) list" where
  "offsetTable =
     [((1, 2), 0), ((1, 1), 1), ((1, 3), 2), ((2, 1), 3),
      ((2, 3), 4), ((3, 2), 5), ((3, 1), 6), ((3, 3), 7)]"

definition specColumn :: "int \<Rightarrow> int \<Rightarrow> int \<Rightarrow> int option" where
  "specColumn spotIndex volIndex maturityIndex =
     (if spotIndex = 2 \<and> volIndex = 2 then Some maturityIndex
      else map_option (\<lambda>off. 3 + 8 * maturityIndex + off) (map_of offsetTable (spotIndex, volIndex)))"

text \<open>All (spot, vol, maturity) index triples of a grid with \<open>M\<close> maturities.\<close>

definition indexTriples :: "nat \<Rightarrow> (int \<times> int \<times> int) list" where
  "indexTriples M =
     concat (map (\<lambda>i. concat (map (\<lambda>j. map (\<lambda>m. (int i, int j, int m)) [0..<M]) [0..<5])) [0..<5])"

definition mappedColumns :: "nat \<Rightarrow> int list" where
  "mappedColumns M =
     filter (\<lambda>c. c \<noteq> - 1) (map (\<lambda>(i, j, m). getDetailedColumnIndex i j m) (indexTriples M))"

section \<open>Path simulator\<close>

text \<open>
  The loop \<open>for (p = 0; p < nPaths; p++)\<close> that fills \<open>terminalPrices\<close>: one Gaussian
  draw per path, the prices in index order.
\<close>

fun simulatePaths ::
  "(nat \<Rightarrow> real) \<Rightarrow> real \<Rightarrow> real \<Rightarrow> real \<Rightarrow> nat \<Rightarrow> nat \<Rightarrow> (real list \<times> nat) option" where
  "simulatePaths U currentS0 drift diffusion 0 pos = Some ([], pos)"
| "simulatePaths U currentS0 drift diffusion (Suc n) pos =
     (case gaussianRandom U pos of
        None \<Rightarrow> None
      | Some (z, pos1) \<Rightarrow>
          (case simulatePaths U currentS0 drift diffusion n pos1 of
             None \<Rightarrow> None
           | Some (rest, pos2) \<Rightarrow> Some (currentS0 * exp (drift + diffusion * z) # rest, pos2)))"

text \<open>
  The simulation core for one (S0, Vol, T) tuple. \<open>new Float64Array(nPaths)\<close> raises a
  RangeError for a negative length, before any draw. It raises one too for a length
  beyond what the engine can allocate; that limit is outside the model, which allocates
  every non-negative length.
\<close>

definition pathSimulator ::
  "(nat \<Rightarrow> real) \<Rightarrow> real \<Rightarrow> real \<Rightarrow> real \<Rightarrow> real \<Rightarrow> real \<Rightarrow> int \<Rightarrow> nat
     \<Rightarrow> (error + real list \<times> nat) option" where
  "pathSimulator U currentS0 currentVol tm rDec qDec n pos =
     (let drift = (rDec - qDec - 0.5 * currentVol * currentVol) * tm;
          diffusion = currentVol * sqrt tm
      in if n < 0 then Some (Inl RangeError)
         else map_option Inr (simulatePaths U currentS0 drift diffusion (nat n) pos))"

section \<open>Payoff valuator\<close>

definition discountFactor :: "real \<Rightarrow> real \<Rightarrow> real" where
  "discountFactor rDec tm = exp (- rDec * tm)"

definition sumPayoff :: "real list \<Rightarrow> nat \<Rightarrow> real \<Rightarrow> real" where
  "sumPayoff terminalPrices n strike =
     fold (\<lambda>p acc. acc + max (terminalPrices ! p - strike) 0) [0..<n] 0"

definition payoffValuator :: "real list \<Rightarrow> int \<Rightarrow> real \<Rightarrow> real \<Rightarrow> real" where
  "payoffValuator terminalPrices n strike df =
     (let avgPayoff = sumPayoff terminalPrices (nat n) strike / real_of_int n
      in df * avgPayoff)"

section \<open>Simulation orchestrator\<close>

text \<open>
  \<open>arr[i] = v\<close> on a JavaScript array: inside the array the slot is replaced, beyond its
  end the array grows to length \<open>i + 1\<close> and the slots in between are holes.
\<close>

definition jsArraySet :: "'a option list \<Rightarrow> nat \<Rightarrow> 'a \<Rightarrow> 'a option list" where
  "jsArraySet xs i v =
     (if i < length xs then xs[i := Some v]
      else xs @ replicate (i - length xs) None @ [Some v])"

text \<open>\<open>maturities[0]\<close>; it is \<open>undefined\<close> (here \<open>None\<close>) for an empty list.\<close>

definition targetDistT :: "SimulationParams \<Rightarrow> real option" where
  "targetDistT p = (case maturities p of [] \<Rightarrow> None | t0 # _ \<Rightarrow> Some t0)"

text \<open>
  The bookkeeping of one scenario, once its terminal prices are simulated: the central
  distribution (matched on the maturity value \<open>t === targetDistT\<close>), the detailed slot,
  and one row per strike, pushed in the order of \<open>strikes\<close>. For loop indices the
  mapper returns \<open>-1\<close> or a natural number, so \<open>nat detailedIdx\<close> is the index written.
\<close>

definition storeScenario ::
  "SimulationParams \<Rightarrow> nat \<Rightarrow> real \<Rightarrow> nat \<Rightarrow> real \<Rightarrow> nat \<Rightarrow> real \<Rightarrow> real list
     \<Rightarrow> SimulationResult \<Rightarrow> SimulationResult" where
  "storeScenario p i currentS0 j currentVol tIdx tm terminalPrices acc =
     (let rDec = r p / 100;
          central =
            (if i = 2 \<and> j = 2 \<and> Some tm = targetDistT p then terminalPrices
             else centralDistribution acc);
          detailedIdx = getDetailedColumnIndex (int i) (int j) (int tIdx);
          detailed =
            (if detailedIdx \<noteq> - 1
             then jsArraySet (detailedPaths acc) (nat detailedIdx) terminalPrices
             else detailedPaths acc);
          rows =
            fold (\<lambda>strike rs. rs @
                   [\<lparr>s0 = currentS0, vol = currentVol, t = tm, k = strike,
                     price = payoffValuator terminalPrices (nPaths p) strike
                               (discountFactor rDec tm),
                     stdErr = 0\<rparr>])
                 (strikes p) (results acc)
      in \<lparr>results = rows, centralDistribution = central, detailedPaths = detailed\<rparr>)"

text \<open>
  The body of the innermost scenario loop, for spot index \<open>i\<close>, volatility index \<open>j\<close> and
  maturity index \<open>tIdx\<close>. The state is the result under construction and the position
  of the random source.
\<close>

definition scenarioStep ::
  "(nat \<Rightarrow> real) \<Rightarrow> SimulationParams \<Rightarrow> nat \<Rightarrow> real \<Rightarrow> nat \<Rightarrow> real \<Rightarrow> nat \<Rightarrow> real
     \<Rightarrow> SimulationResult \<times> nat \<Rightarrow> (error + SimulationResult \<times> nat) option" where
  "scenarioStep U p i currentS0 j currentVol tIdx tm st =
     (case pathSimulator U currentS0 currentVol tm (r p / 100) (q p / 100) (nPaths p) (snd st) of
        None \<Rightarrow> None
      | Some (Inl e) \<Rightarrow> Some (Inl e)
      | Some (Inr (terminalPrices, pos1)) \<Rightarrow>
          Some (Inr (storeScenario p i currentS0 j currentVol tIdx tm terminalPrices (fst st),
                     pos1)))"

text \<open>A \<open>for\<close> loop over a list whose body may raise or not return.\<close>

fun forEach ::
  "('a \<Rightarrow> 's \<Rightarrow> (error + 's) option) \<Rightarrow> 'a list \<Rightarrow> 's \<Rightarrow> (error + 's) option" where
  "forEach body [] st = Some (Inr st)"
| "forEach body (x # xs) st =
     (case body x st of
        None \<Rightarrow> None
      | Some (Inl e) \<Rightarrow> Some (Inl e)
      | Some (Inr st1) \<Rightarrow> forEach body xs st1)"

definition initialResult :: SimulationResult where
  "initialResult =
     \<lparr>results = [], centralDistribution = [], detailedPaths = replicate 27 (Some [])\<rparr>"

definition s0List :: "SimulationParams \<Rightarrow> real list" where
  "s0List p = generateGeometricScenarios (SimulationParams.s0 p) (s0Step p)"

definition volList :: "SimulationParams \<Rightarrow> real list" where
  "volList p = generateArithmeticScenarios (SimulationParams.vol p / 100) (volStep p)"

text \<open>
  The run takes the random source and its position, and returns the result with the
  position reached, a RangeError, or nothing when the sampler does not return.
\<close>

definition runFullSimulation ::
  "(nat \<Rightarrow> real) \<Rightarrow> nat \<Rightarrow> SimulationParams \<Rightarrow> (error + SimulationResult \<times> nat) option" where
  "runFullSimulation U pos p =
     forEach (\<lambda>(i, currentS0).
       forEach (\<lambda>(j, currentVol).
         forEach (\<lambda>(tIdx, tm). scenarioStep U p i currentS0 j currentVol tIdx tm)
           (enumerate 0 (maturities p)))
         (enumerate 0 (volList p)))
       (enumerate 0 (s0List p))
       (initialResult, pos)"

section \<open>Notions of the specification\<close>

text \<open>
  The (spotIndex, volIndex, maturityIndex) triples in iteration order: spot outermost,
  then volatility, then maturity.
\<close>

definition scenarioTriples :: "SimulationParams \<Rightarrow> (nat \<times> nat \<times> nat) list" where
  "scenarioTriples p =
     concat (map (\<lambda>i. concat (map (\<lambda>j. map (\<lambda>tIdx. (i, j, tIdx))
       [0..<length (maturities p)]) [0..<5])) [0..<5])"

text \<open>
  The terminal-price sample simulated for each triple of a list: the path simulator is
  run once per triple, in order, each run starting where the previous one left the
  random source.
\<close>

fun sampleTrace ::
  "(nat \<Rightarrow> real) \<Rightarrow> SimulationParams \<Rightarrow> (nat \<times> nat \<times> nat) list \<Rightarrow> nat
     \<Rightarrow> ((nat \<times> nat \<times> nat) \<times> real list) list option" where
  "sampleTrace U p [] pos = Some []"
| "sampleTrace U p ((i, j, tIdx) # rest) pos =
     (case pathSimulator U (s0List p ! i) (volList p ! j) (maturities p ! tIdx)
             (r p / 100) (q p / 100) (nPaths p) pos of
        Some (Inr (sample, pos1)) \<Rightarrow>
          map_option ((#) ((i, j, tIdx), sample)) (sampleTrace U p rest pos1)
      | _ \<Rightarrow> None)"

definition simulatedSample ::
  "(nat \<Rightarrow> real) \<Rightarrow> nat \<Rightarrow> SimulationParams \<Rightarrow> nat \<times> nat \<times> nat \<Rightarrow> real list option" where
  "simulatedSample U pos p triple =
     (case sampleTrace U p (scenarioTriples p) pos of
        None \<Rightarrow> None
      | Some tr \<Rightarrow> map_of tr triple)"

text \<open>The result of a run that returns, and nothing otherwise.\<close>

definition returned ::
  "(error + SimulationResult \<times> nat) option \<Rightarrow> SimulationResult option" where
  "returned out = (case out of Some (Inr (res, _)) \<Rightarrow> Some res | _ \<Rightarrow> None)"

text \<open>The last maturity index whose maturity value equals the first maturity.\<close>

definition centralMaturityIndex :: "SimulationParams \<Rightarrow> nat" where
  "centralMaturityIndex p =
     last (filter (\<lambda>m. maturities p ! m = maturities p ! 0) [0..<length (maturities p)])"

text \<open>The scenario a row was priced for.\<close>

definition rowKey :: "ScenarioRow \<Rightarrow> real \<times> real \<times> real \<times> real" where
  "rowKey row = (ScenarioRow.s0 row, ScenarioRow.vol row, t row, k row)"

text \<open>The parameters the input contract calls valid.\<close>

definition validParams :: "SimulationParams \<Rightarrow> bool" where
  "validParams p = (1 \<le> nPaths p \<and> maturities p \<noteq> [] \<and> strikes p \<noteq> [])"

section \<open>The loops as one pass over the triples\<close>

text \<open>
  The loop body and its bookkeeping at a triple of indices, with the spot, volatility and
  maturity values read from the axes as the loops do.
\<close>

definition scenarioStepAt ::
  "(nat \<Rightarrow> real) \<Rightarrow> SimulationParams \<Rightarrow> nat \<times> nat \<times> nat
     \<Rightarrow> SimulationResult \<times> nat \<Rightarrow> (error + SimulationResult \<times> nat) option" where
  "scenarioStepAt U p =
     (\<lambda>(i, j, tIdx). scenarioStep U p i (s0List p ! i) j (volList p ! j) tIdx
        (maturities p ! tIdx))"

definition storeAt ::
  "SimulationParams \<Rightarrow> SimulationResult \<Rightarrow> (nat \<times> nat \<times> nat) \<times> real list \<Rightarrow> SimulationResult" where
  "storeAt p acc =
     (\<lambda>((i, j, tIdx), sample). storeScenario p i (s0List p ! i) j (volList p ! j) tIdx
        (maturities p ! tIdx) sample acc)"

text \<open>The test that overwrites the central distribution.\<close>

definition isCentral :: "SimulationParams \<Rightarrow> nat \<times> nat \<times> nat \<Rightarrow> bool" where
  "isCentral p = (\<lambda>(i, j, tIdx). i = 2 \<and> j = 2 \<and> Some (maturities p ! tIdx) = targetDistT p)"

section \<open>Concrete inputs\<close>

text \<open>The end-to-end example of the specification.\<close>

definition exampleParams :: SimulationParams where
  "exampleParams =
     \<lparr>r = 3, q = 0, s0 = 50000, s0Step = 2.5, vol = 20, volStep = 1, nPaths = 10000,
      maturities = [4, 5, 6], strikes = [50000, 52000]\<rparr>"

text \<open>A random source that always draws 1/2.\<close>

definition halfSource :: "nat \<Rightarrow> real" where
  "halfSource n = 1 / 2"

text \<open>
  Two equal maturities and one path per scenario. The source draws 1/2 except at
  position 49, the second draw of the scenario (2, 2, 0), where it draws 1/4.
\<close>

definition recurringParams :: SimulationParams where
  "recurringParams =
     \<lparr>r = 0, q = 0, s0 = 1, s0Step = 0, vol = 100, volStep = 0, nPaths = 1,
      maturities = [1, 1], strikes = [1]\<rparr>"

definition recurringSource :: "nat \<Rightarrow> real" where
  "recurringSource n = (if n = 49 then 1 / 4 else 1 / 2)"

text \<open>Four maturities; no strike; no maturity; a negative path count; no path.\<close>

definition fourMaturityParams :: SimulationParams where
  "fourMaturityParams =
     \<lparr>r = 3, q = 0, s0 = 50000, s0Step = 2.5, vol = 20, volStep = 1, nPaths = 10000,
      maturities = [1, 2, 3, 4], strikes = [50000, 52000]\<rparr>"

definition noStrikeParams :: SimulationParams where
  "noStrikeParams =
     \<lparr>r = 3, q = 0, s0 = 50000, s0Step = 2.5, vol = 20, volStep = 1, nPaths = 1,
      maturities = [0], strikes = []\<rparr>"

definition noMaturityParams :: SimulationParams where
  "noMaturityParams =
     \<lparr>r = 3, q = 0, s0 = 50000, s0Step = 2.5, vol = 20, volStep = 1, nPaths = 10000,
      maturities = [], strikes = [50000, 52000]\<rparr>"

definition negativePathsParams :: SimulationParams where
  "negativePathsParams =
     \<lparr>r = 3, q = 0, s0 = 50000, s0Step = 2.5, vol = 20, volStep = 1, nPaths = - 1,
      maturities = [4, 5, 6], strikes = [50000, 52000]\<rparr>"

definition zeroPathsParams :: SimulationParams where
  "zeroPathsParams =
     \<lparr>r = 3, q = 0, s0 = 50000, s0Step = 2.5, vol = 20, volStep = 1, nPaths = 0,
      maturities = [4, 5, 6], strikes = [50000, 52000]\<rparr>"

section \<open>The grid generators\<close>

lemma geometric_adjacent:
  fixes p s :: real
  shows "sorted_wrt (<) [p * (1 - s)^2, p * (1 - s), p, p * (1 + s), p * (1 + s)^2] \<longleftrightarrow>
    0 < p * s * (1 - s) \<and> 0 < p * s \<and> 0 < p * s * (1 + s)"
proof -
  have a: "p * (1 - s)^2 < p * (1 - s) \<longleftrightarrow> 0 < p * s * (1 - s)"
    by (simp add: power2_eq_square algebra_simps)
  have b: "p * (1 - s) < p \<longleftrightarrow> 0 < p * s"
    by (simp add: algebra_simps)
  have c: "p < p * (1 + s) \<longleftrightarrow> 0 < p * s"
    by (simp add: algebra_simps)
  have d: "p * (1 + s) < p * (1 + s)^2 \<longleftrightarrow> 0 < p * s * (1 + s)"
    by (simp add: power2_eq_square algebra_simps)
  have "sorted_wrt (<) [p * (1 - s)^2, p * (1 - s), p, p * (1 + s), p * (1 + s)^2] \<longleftrightarrow>
     p * (1 - s)^2 < p * (1 - s) \<and> p * (1 - s) < p \<and> p < p * (1 + s)
       \<and> p * (1 + s) < p * (1 + s)^2"
    by (simp only: sorted_wrt2 [OF transp_on_less] sorted_wrt1 simp_thms)
  then show ?thesis
    using a b c d by auto
qed

lemma geometric_ascending_iff:
  fixes p s :: real
  shows "sorted_wrt (<) [p * (1 - s)^2, p * (1 - s), p, p * (1 + s), p * (1 + s)^2] \<longleftrightarrow>
    (0 < p \<and> 0 < s \<and> s < 1) \<or> (p < 0 \<and> - 1 < s \<and> s < 0)"
  unfolding geometric_adjacent
  by (auto simp add: zero_less_mult_iff mult_less_0_iff)

lemma arithmetic_sorted:
  "0 \<le> stepPercent \<Longrightarrow> sorted (generateArithmeticScenarios pivot stepPercent)"
  by (simp add: generateArithmeticScenarios_def Let_def)

lemma geometric_sorted_list:
  fixes p s :: real
  assumes "(0 \<le> p \<and> 0 \<le> s \<and> s \<le> 1) \<or> (p \<le> 0 \<and> - 1 \<le> s \<and> s \<le> 0)"
  shows "sorted [p * (1 - s)^2, p * (1 - s), p, p * (1 + s), p * (1 + s)^2]"
proof -
  have a: "p * (1 - s)^2 \<le> p * (1 - s) \<longleftrightarrow> 0 \<le> p * s * (1 - s)"
    by (simp add: power2_eq_square algebra_simps)
  have b: "p * (1 - s) \<le> p \<longleftrightarrow> 0 \<le> p * s"
    by (simp add: algebra_simps)
  have c: "p \<le> p * (1 + s) \<longleftrightarrow> 0 \<le> p * s"
    by (simp add: algebra_simps)
  have d: "p * (1 + s) \<le> p * (1 + s)^2 \<longleftrightarrow> 0 \<le> p * s * (1 + s)"
    by (simp add: power2_eq_square algebra_simps)
  have ps: "0 \<le> p * s"
    using assms by (auto simp add: zero_le_mult_iff)
  have lo: "0 \<le> 1 - s" and hi: "0 \<le> 1 + s"
    using assms by auto
  have adj: "p * (1 - s)^2 \<le> p * (1 - s)" "p * (1 - s) \<le> p" "p \<le> p * (1 + s)"
    "p * (1 + s) \<le> p * (1 + s)^2"
    using ps lo hi by (simp_all add: a b c d)
  have "sorted [p * (1 - s)^2, p * (1 - s), p, p * (1 + s), p * (1 + s)^2] \<longleftrightarrow>
     p * (1 - s)^2 \<le> p * (1 - s) \<and> p * (1 - s) \<le> p \<and> p \<le> p * (1 + s)
       \<and> p * (1 + s) \<le> p * (1 + s)^2"
    by (simp only: sorted_wrt2 [OF transp_on_le] sorted_wrt1 simp_thms)
  then show ?thesis
    using adj by blast
qed

text \<open>
  C6 (amended). For any pivot and step, both generators return exactly 5 values with the
  pivot at index 2. The order is stated in the two directions that rounding to doubles
  keeps (the source computes in doubles, where a small step can be absorbed and
  neighbouring values coincide). The arithmetic axis is strictly ascending only if the
  step is positive, and it is ascending, not necessarily strictly, whenever the step is
  not negative. The geometric axis is strictly ascending only if pivot and step have the
  same sign, neither is zero and the step is below 100 percent in absolute value, and it
  is ascending, not necessarily strictly, whenever pivot and step have the same sign
  (zero allowed) and the step is at most 100 percent in absolute value.
\<close>

theorem axis_shape_and_order:
  "length (generateGeometricScenarios pivot stepPercent) = 5
   \<and> generateGeometricScenarios pivot stepPercent ! 2 = pivot
   \<and> length (generateArithmeticScenarios pivot stepPercent) = 5
   \<and> generateArithmeticScenarios pivot stepPercent ! 2 = pivot
   \<and> (sorted_wrt (<) (generateArithmeticScenarios pivot stepPercent) \<longrightarrow> 0 < stepPercent)
   \<and> (0 \<le> stepPercent \<longrightarrow> sorted (generateArithmeticScenarios pivot stepPercent))
   \<and> (sorted_wrt (<) (generateGeometricScenarios pivot stepPercent) \<longrightarrow>
        (0 < pivot \<and> 0 < stepPercent \<and> stepPercent < 100)
        \<or> (pivot < 0 \<and> - 100 < stepPercent \<and> stepPercent < 0))
   \<and> ((0 \<le> pivot \<and> 0 \<le> stepPercent \<and> stepPercent \<le> 100)
        \<or> (pivot \<le> 0 \<and> - 100 \<le> stepPercent \<and> stepPercent \<le> 0)
       \<longrightarrow> sorted (generateGeometricScenarios pivot stepPercent))"
proof -
  have shape:
    "length (generateGeometricScenarios pivot stepPercent) = 5"
    "generateGeometricScenarios pivot stepPercent ! 2 = pivot"
    "length (generateArithmeticScenarios pivot stepPercent) = 5"
    "generateArithmeticScenarios pivot stepPercent ! 2 = pivot"
    by (simp_all add: generateGeometricScenarios_def generateArithmeticScenarios_def Let_def)
  have arithUp:
    "sorted_wrt (<) (generateArithmeticScenarios pivot stepPercent) \<longrightarrow> 0 < stepPercent"
    by (auto simp add: generateArithmeticScenarios_def Let_def)
  have arithWeak:
    "0 \<le> stepPercent \<longrightarrow> sorted (generateArithmeticScenarios pivot stepPercent)"
    by (simp add: arithmetic_sorted)
  have geoUp:
    "sorted_wrt (<) (generateGeometricScenarios pivot stepPercent) \<longrightarrow>
       (0 < pivot \<and> 0 < stepPercent \<and> stepPercent < 100)
       \<or> (pivot < 0 \<and> - 100 < stepPercent \<and> stepPercent < 0)"
    unfolding generateGeometricScenarios_def Let_def geometric_ascending_iff by auto
  have geoWeak:
    "(0 \<le> pivot \<and> 0 \<le> stepPercent \<and> stepPercent \<le> 100)
        \<or> (pivot \<le> 0 \<and> - 100 \<le> stepPercent \<and> stepPercent \<le> 0)
       \<longrightarrow> sorted (generateGeometricScenarios pivot stepPercent)"
    unfolding generateGeometricScenarios_def Let_def
    by (intro impI geometric_sorted_list) auto
  show ?thesis
    using shape arithUp arithWeak geoUp geoWeak by blast
qed

theorem axis_shape_and_order_witness:
  "sorted_wrt (<) (generateArithmeticScenarios (1 / 5) 1) \<and> (0 :: real) < 1
   \<and> sorted (generateArithmeticScenarios (1 / 5) 1)
   \<and> sorted_wrt (<) (generateGeometricScenarios 50000 (5 / 2))
   \<and> (0 :: real) < 50000 \<and> (0 :: real) < 5 / 2 \<and> (5 / 2 :: real) < 100
   \<and> sorted (generateGeometricScenarios 50000 (5 / 2))"
proof -
  have a: "sorted_wrt (<) (generateArithmeticScenarios (1 / 5) 1)"
    by (simp add: generateArithmeticScenarios_def)
  have g: "sorted_wrt (<) (generateGeometricScenarios 50000 (5 / 2))"
    by (simp add: generateGeometricScenarios_def power2_eq_square)
  show ?thesis
    using a g axis_shape_and_order [of 50000 "5 / 2"] axis_shape_and_order [of "1 / 5" 1] by simp
qed

text \<open>
  C6 as stated fails: with pivot 0 and the non-zero step -100 the arithmetic axis is
  [2, 1, 0, -1, -2], which is not ascending.
\<close>

theorem arithmetic_axis_not_ascending:
  "(- 100 :: real) \<noteq> 0 \<and> \<not> sorted_wrt (<) (generateArithmeticScenarios 0 (- 100))"
  by (simp add: generateArithmeticScenarios_def)

section \<open>The detailed-column mapper\<close>

text \<open>
  C3. The mapper leaves the range 0..26 once the maturity index reaches 3: for spot
  index 1, volatility index 2 and maturity index 3 (a grid of four maturities) it
  returns 27, and storing a sample there grows the 27-slot collection to 28 slots.
\<close>

theorem mapper_leaves_27_slots:
  "getDetailedColumnIndex 1 2 3 = 27
   \<and> length (jsArraySet (replicate 27 (Some [])) (nat (getDetailedColumnIndex 1 2 3)) sample) = 28"
  by (simp add: getDetailedColumnIndex_def jsArraySet_def)

text \<open>
  C4. The mapper is the tabled enumeration: the pivot pair maps to the maturity index,
  the eight tabled pairs to 3 + 8 * maturityIndex + offset, every other pair to -1. With
  three maturities the grid has 75 triples, 27 of them map to a column, and the columns
  are pairwise distinct and are exactly 0..26.
\<close>

theorem mapper_is_enumeration:
  "getDetailedColumnIndex spotIndex volIndex maturityIndex =
     (case specColumn spotIndex volIndex maturityIndex of Some c \<Rightarrow> c | None \<Rightarrow> - 1)
   \<and> length (indexTriples 3) = 75
   \<and> length (mappedColumns 3) = 27
   \<and> distinct (mappedColumns 3)
   \<and> set (mappedColumns 3) = {0..26}"
proof -
  have enum: "getDetailedColumnIndex spotIndex volIndex maturityIndex =
     (case specColumn spotIndex volIndex maturityIndex of Some c \<Rightarrow> c | None \<Rightarrow> - 1)"
    by (simp add: getDetailedColumnIndex_def specColumn_def offsetTable_def Let_def)
  have triples: "length (indexTriples 3) = 75"
    by (simp add: indexTriples_def upt_rec)
  have cols: "mappedColumns 3 =
     [4, 12, 20, 3, 11, 19, 5, 13, 21, 6, 14, 22, 0, 1, 2, 7, 15, 23, 9, 17, 25, 8, 16, 24,
      10, 18, 26]"
    by (simp add: mappedColumns_def indexTriples_def upt_rec getDetailedColumnIndex_def)
  have range: "{0..26::int} = set [0..26]"
    by simp
  have "set (mappedColumns 3) = {0..26}"
    unfolding cols range by (simp add: upto_rec1) blast
  then show ?thesis
    using enum triples by (simp add: cols)
qed

section \<open>The payoff valuator\<close>

lemma sumPayoff_fold_take:
  "n \<le> length xs \<Longrightarrow>
   fold (\<lambda>p acc. acc + max (xs ! p - K) 0) [0..<n] a = a + (\<Sum>x\<leftarrow>take n xs. max (x - K) (0::real))"
proof (induction n arbitrary: a)
  case 0
  then show ?case by simp
next
  case (Suc n)
  then show ?case by (simp add: take_Suc_conv_app_nth)
qed

lemma sumPayoff_sum_list:
  "length xs = n \<Longrightarrow> sumPayoff xs n K = (\<Sum>x\<leftarrow>xs. max (x - K) 0)"
  using sumPayoff_fold_take [of n xs K 0] by (simp add: sumPayoff_def)

text \<open>
  C8. For a sample of length N >= 1 the payoff valuator returns
  exp(-r*T) * (1/N) * sum of max(terminal_i - K, 0); the result is non-negative, and it
  is 0 when the strike is at least the maximum of the sample.
\<close>

theorem payoff_valuator_formula:
  assumes "length xs = nat N" and "1 \<le> N"
  shows "payoffValuator xs N K (discountFactor rate T) =
           exp (- rate * T) * (1 / real_of_int N) * (\<Sum>x\<leftarrow>xs. max (x - K) 0)
         \<and> 0 \<le> payoffValuator xs N K (discountFactor rate T)
         \<and> (Max (set xs) \<le> K \<longrightarrow> payoffValuator xs N K (discountFactor rate T) = 0)"
proof -
  have eq: "payoffValuator xs N K (discountFactor rate T) =
      exp (- rate * T) * (1 / real_of_int N) * (\<Sum>x\<leftarrow>xs. max (x - K) 0)"
    using assms by (simp add: payoffValuator_def discountFactor_def sumPayoff_sum_list)
  have nonneg: "0 \<le> (\<Sum>x\<leftarrow>xs. max (x - K) 0)"
    by (rule sum_list_nonneg) auto
  have below: "(\<Sum>x\<leftarrow>xs. max (x - K) 0) = 0" if "\<forall>x\<in>set xs. x \<le> K"
    using that by (induction xs) auto
  have "xs \<noteq> []"
    using assms by auto
  then have "Max (set xs) \<le> K \<longleftrightarrow> (\<forall>x\<in>set xs. x \<le> K)"
    by (simp add: Max_le_iff)
  then show ?thesis
    using assms nonneg below unfolding eq by simp
qed

theorem payoff_valuator_formula_witness:
  "length [120, 90 :: real] = nat 2 \<and> (1::int) \<le> 2
   \<and> payoffValuator [120, 90] 2 100 (discountFactor (3 / 100) 4) =
       exp (- (3 / 100) * 4) * (1 / 2) * 20
   \<and> 0 \<le> payoffValuator [120, 90] 2 100 (discountFactor (3 / 100) 4)
   \<and> payoffValuator [120, 90] 2 120 (discountFactor (3 / 100) 4) = 0"
proof -
  have len: "length [120, 90 :: real] = nat 2" by simp
  have n: "(1::int) \<le> 2" by simp
  show ?thesis
    using payoff_valuator_formula [OF len n, of 100 "3 / 100" 4]
      payoff_valuator_formula [OF len n, of 120 "3 / 100" 4]
    by simp
qed

section \<open>The sampler and the path simulator\<close>

lemma drawNonZero_nonzero: "u \<noteq> 0 \<Longrightarrow> drawNonZero U u pos = Some (u, pos)"
  by (subst drawNonZero.simps) simp

lemma drawNonZero_zero: "drawNonZero U 0 pos = drawNonZero U (U pos) (Suc pos)"
  by (subst drawNonZero.simps) simp

lemma drawNonZero_returns_within:
  "U (pos + d) \<noteq> 0 \<Longrightarrow> \<exists>u pos1. drawNonZero U 0 pos = Some (u, pos1)"
proof (induction d arbitrary: pos)
  case 0
  then show ?case
    by (simp add: drawNonZero_zero drawNonZero_nonzero)
next
  case (Suc d)
  show ?case
  proof (cases "U pos = 0")
    case True
    from Suc.prems have "U (Suc pos + d) \<noteq> 0" by simp
    from Suc.IH [OF this] True show ?thesis
      by (simp add: drawNonZero_zero [of U pos])
  next
    case False
    then show ?thesis
      by (simp add: drawNonZero_zero [of U pos] drawNonZero_nonzero)
  qed
qed

lemma drawNonZero_returns:
  assumes "fairSource U"
  shows "\<exists>u pos1. drawNonZero U 0 pos = Some (u, pos1)"
proof -
  from assms obtain m where "pos \<le> m" "U m \<noteq> 0"
    unfolding fairSource_def by blast
  then have "U (pos + (m - pos)) \<noteq> 0" by simp
  then show ?thesis by (rule drawNonZero_returns_within)
qed

lemma gaussianRandom_returns:
  assumes "fairSource U"
  shows "\<exists>z pos1. gaussianRandom U pos = Some (z, pos1)"
proof -
  obtain u pos1 where a: "drawNonZero U 0 pos = Some (u, pos1)"
    using drawNonZero_returns [OF assms] by blast
  obtain v pos2 where b: "drawNonZero U 0 pos1 = Some (v, pos2)"
    using drawNonZero_returns [OF assms] by blast
  show ?thesis
    by (simp add: gaussianRandom_def a b)
qed

lemma simulatePaths_returns:
  assumes "fairSource U"
  shows "\<exists>xs pos1. simulatePaths U S dr di n pos = Some (xs, pos1) \<and> length xs = n"
proof (induction n arbitrary: pos)
  case 0
  show ?case by simp
next
  case (Suc n)
  obtain z pos1 where g: "gaussianRandom U pos = Some (z, pos1)"
    using gaussianRandom_returns [OF assms] by blast
  obtain xs pos2 where s: "simulatePaths U S dr di n pos1 = Some (xs, pos2)" "length xs = n"
    using Suc.IH by blast
  show ?case by (simp add: g s)
qed

lemma simulatePaths_degenerate:
  assumes "fairSource U"
  shows "\<exists>pos1. simulatePaths U S 0 0 n pos = Some (replicate n S, pos1)"
proof (induction n arbitrary: pos)
  case 0
  show ?case by simp
next
  case (Suc n)
  obtain z pos1 where g: "gaussianRandom U pos = Some (z, pos1)"
    using gaussianRandom_returns [OF assms] by blast
  obtain pos2 where s: "simulatePaths U S 0 0 n pos1 = Some (replicate n S, pos2)"
    using Suc.IH by blast
  show ?case by (simp add: g s)
qed

lemma pathSimulator_returns:
  assumes "fairSource U" and "0 \<le> n"
  shows "\<exists>xs pos1. pathSimulator U S sg tm rd qd n pos = Some (Inr (xs, pos1))
           \<and> length xs = nat n"
proof -
  obtain xs pos1 where
    "simulatePaths U S ((rd - qd - 0.5 * sg * sg) * tm) (sg * sqrt tm) (nat n) pos
       = Some (xs, pos1)"
    "length xs = nat n"
    using simulatePaths_returns [OF assms(1)] by blast
  then show ?thesis
    using assms(2) by (simp add: pathSimulator_def)
qed

lemma fairSource_const: "c \<noteq> 0 \<Longrightarrow> fairSource (\<lambda>_. c)"
  by (auto simp add: fairSource_def)

text \<open>
  C7. With maturity T = 0 and N >= 1 paths the path simulator raises no error and
  returns N prices, each equal to the spot S, for every volatility, rate and dividend
  yield. The sampler has to return for the simulator to return: the random source is
  fair.
\<close>

theorem degenerate_maturity_returns_spot:
  assumes "fairSource U" and "1 \<le> N"
  shows "\<exists>pos1. pathSimulator U S sigma 0 rDec qDec N pos
                  = Some (Inr (replicate (nat N) S, pos1))"
proof -
  obtain pos1 where "simulatePaths U S 0 0 (nat N) pos = Some (replicate (nat N) S, pos1)"
    using simulatePaths_degenerate [OF assms(1)] by blast
  then show ?thesis
    using assms(2) by (simp add: pathSimulator_def)
qed

theorem degenerate_maturity_returns_spot_witness:
  "fairSource (\<lambda>_. 1 / 2) \<and> (1::int) \<le> 3
   \<and> (\<exists>pos1. pathSimulator (\<lambda>_. 1 / 2) 50000 0.2 0 0.03 0 3 0
                = Some (Inr (replicate (nat 3) 50000, pos1)))"
proof -
  have f: "fairSource (\<lambda>_. 1 / 2 :: real)" by (rule fairSource_const) simp
  have n: "(1::int) \<le> 3" by simp
  show ?thesis
    using f n degenerate_maturity_returns_spot [OF f n, of 50000 "0.2" "0.03" 0 0] by simp
qed

section \<open>The orchestrator\<close>

lemma fairSource_nonzero: "(\<And>n. U n \<noteq> 0) \<Longrightarrow> fairSource U"
  unfolding fairSource_def by blast

lemma half_fair: "fairSource halfSource"
  by (rule fairSource_nonzero) (simp add: halfSource_def)

lemma forEach_append:
  "forEach body (xs @ ys) st =
     (case forEach body xs st of
        None \<Rightarrow> None
      | Some (Inl e) \<Rightarrow> Some (Inl e)
      | Some (Inr st1) \<Rightarrow> forEach body ys st1)"
  by (induction xs arbitrary: st) (simp_all split: option.split sum.split)

lemma forEach_map_st: "forEach body (map h xs) st = forEach (\<lambda>x. body (h x)) xs st"
  by (induction xs arbitrary: st) (simp_all split: option.split sum.split)

lemma forEach_map: "forEach body (map h xs) = forEach (\<lambda>x. body (h x)) xs"
  by (rule ext) (rule forEach_map_st)

lemma forEach_concat_map_st:
  "forEach body (concat (map g xs)) st = forEach (\<lambda>x. forEach body (g x)) xs st"
  by (induction xs arbitrary: st) (simp_all add: forEach_append split: option.split sum.split)

lemma forEach_concat_map:
  "forEach body (concat (map g xs)) = forEach (\<lambda>x. forEach body (g x)) xs"
  by (rule ext) (rule forEach_concat_map_st)

lemma enumerate_nth: "enumerate 0 xs = map (\<lambda>i. (i, xs ! i)) [0..<length xs]"
  by (rule nth_equalityI) (simp_all add: nth_enumerate_eq)

lemma length_axes [simp]: "length (s0List p) = 5" "length (volList p) = 5"
  by (simp_all add: s0List_def volList_def generateGeometricScenarios_def
      generateArithmeticScenarios_def Let_def)

lemma run_one_pass:
  "runFullSimulation U pos p = forEach (scenarioStepAt U p) (scenarioTriples p) (initialResult, pos)"
  by (simp add: runFullSimulation_def scenarioTriples_def enumerate_nth forEach_map
      forEach_concat_map scenarioStepAt_def)

lemma scenarioTriples_product:
  "scenarioTriples p = List.product [0..<5] (List.product [0..<5] [0..<length (maturities p)])"
  by (simp add: scenarioTriples_def product_concat_map map_concat comp_def)

lemma distinct_scenarioTriples: "distinct (scenarioTriples p)"
  by (simp add: scenarioTriples_product distinct_product)

lemma set_scenarioTriples:
  "(i, j, m) \<in> set (scenarioTriples p) \<longleftrightarrow> i < 5 \<and> j < 5 \<and> m < length (maturities p)"
  by (auto simp add: scenarioTriples_product)

lemma run_trace:
  assumes "fairSource U" and "0 \<le> nPaths p"
  shows "\<exists>tr pos1. sampleTrace U p ts pos = Some tr \<and> map fst tr = ts
           \<and> (\<forall>x\<in>set tr. length (snd x) = nat (nPaths p))
           \<and> forEach (scenarioStepAt U p) ts (acc, pos) = Some (Inr (foldl (storeAt p) acc tr, pos1))"
proof (induction ts arbitrary: acc pos)
  case Nil
  show ?case by simp
next
  case (Cons x ts)
  obtain i j m where x: "x = (i, j, m)" by (cases x)
  obtain xs pos1 where
    sim: "pathSimulator U (s0List p ! i) (volList p ! j) (maturities p ! m)
            (r p / 100) (q p / 100) (nPaths p) pos = Some (Inr (xs, pos1))"
    and len: "length xs = nat (nPaths p)"
    using pathSimulator_returns [OF assms] by blast
  obtain tr pos2 where
    tr: "sampleTrace U p ts pos1 = Some tr" "map fst tr = ts"
        "\<forall>x\<in>set tr. length (snd x) = nat (nPaths p)"
        "forEach (scenarioStepAt U p) ts (storeAt p acc ((i, j, m), xs), pos1)
           = Some (Inr (foldl (storeAt p) (storeAt p acc ((i, j, m), xs)) tr, pos2))"
    using Cons.IH by blast
  have step: "scenarioStepAt U p (i, j, m) (acc, pos) = Some (Inr (storeAt p acc ((i, j, m), xs), pos1))"
    by (simp add: scenarioStepAt_def scenarioStep_def sim storeAt_def)
  show ?case
    using tr len by (simp add: x sim step)
qed

lemma fold_push: "fold (\<lambda>x rs. rs @ [f x]) xs init = init @ map f xs"
  by (induction xs arbitrary: init) simp_all

lemma rowKey_storeAt:
  "map rowKey (results (storeAt p acc ((i, j, m), xs))) =
     map rowKey (results acc) @
     map (\<lambda>strike. (s0List p ! i, volList p ! j, maturities p ! m, strike)) (strikes p)"
  by (simp add: storeAt_def storeScenario_def Let_def fold_push rowKey_def comp_def)

lemma rowKey_foldl_storeAt:
  "map rowKey (results (foldl (storeAt p) acc tr)) =
     map rowKey (results acc) @
     concat (map (\<lambda>(i, j, m). map (\<lambda>strike. (s0List p ! i, volList p ! j, maturities p ! m, strike))
                   (strikes p)) (map fst tr))"
proof (induction tr arbitrary: acc)
  case Nil
  show ?case by simp
next
  case (Cons x tr)
  obtain i j m xs where x: "x = ((i, j, m), xs)" by (cases x) auto
  show ?case
    by (simp add: x Cons.IH rowKey_storeAt)
qed

lemma map_nth_upt: "length xs = n \<Longrightarrow> map (\<lambda>i. f (xs ! i)) [0..<n] = map f xs"
  by (rule nth_equalityI) simp_all

lemma concat_map_concat:
  "concat (map f (concat xss)) = concat (map (\<lambda>xs. concat (map f xs)) xss)"
  by (induction xss) simp_all

lemma keys_cross_product:
  "concat (map (\<lambda>(i, j, m). map (\<lambda>strike. (s0List p ! i, volList p ! j, maturities p ! m, strike))
                   (strikes p)) (scenarioTriples p)) =
   [(s, v, tm, strike). s \<leftarrow> s0List p, v \<leftarrow> volList p, tm \<leftarrow> maturities p, strike \<leftarrow> strikes p]"
proof -
  have m: "\<And>f. map f (maturities p) = map (\<lambda>i. f (maturities p ! i)) [0..<length (maturities p)]"
    by (simp add: map_nth_upt)
  have v: "\<And>f. map f (volList p) = map (\<lambda>i. f (volList p ! i)) [0..<5]"
    by (simp add: map_nth_upt)
  have s: "\<And>f. map f (s0List p) = map (\<lambda>i. f (s0List p ! i)) [0..<5]"
    by (simp add: map_nth_upt)
  show ?thesis
    unfolding scenarioTriples_def s v m
    by (simp add: concat_map_concat comp_def)
qed

lemma length_concat_map_const:
  "(\<And>x. length (f x) = n) \<Longrightarrow> length (concat (map f xs)) = length xs * n"
  by (induction xs) simp_all

lemma length_cross_product:
  "length [(s, v, tm, strike). s \<leftarrow> A, v \<leftarrow> B, tm \<leftarrow> C, strike \<leftarrow> (D :: 'd list)] =
     length A * length B * length C * length D"
  by (simp add: length_concat_map_const)

lemma run_returns:
  assumes "fairSource U" and "0 \<le> nPaths p"
  shows "\<exists>tr pos1. sampleTrace U p (scenarioTriples p) pos = Some tr
           \<and> map fst tr = scenarioTriples p
           \<and> (\<forall>x\<in>set tr. length (snd x) = nat (nPaths p))
           \<and> runFullSimulation U pos p = Some (Inr (foldl (storeAt p) initialResult tr, pos1))"
  unfolding run_one_pass by (rule run_trace [OF assms])

text \<open>
  C5. For valid parameters with M maturities and K strikes (and a fair random source)
  the run returns, its rows are one per element of the spot x vol x maturity x strike
  cross product, in the order spot (outermost), vol, maturity, strike (innermost), and
  there are exactly 25 * M * K of them.
\<close>

theorem rows_cover_cross_product:
  assumes "fairSource U" and "validParams p"
  shows "\<exists>res pos1. runFullSimulation U pos p = Some (Inr (res, pos1))
     \<and> map rowKey (results res) =
         [(s, v, tm, strike). s \<leftarrow> s0List p, v \<leftarrow> volList p, tm \<leftarrow> maturities p, strike \<leftarrow> strikes p]
     \<and> length (results res) = 25 * length (maturities p) * length (strikes p)"
proof -
  from assms(2) have "0 \<le> nPaths p" by (simp add: validParams_def)
  from run_returns [OF assms(1) this] obtain tr pos1 where
    tr: "map fst tr = scenarioTriples p"
    and run: "runFullSimulation U pos p = Some (Inr (foldl (storeAt p) initialResult tr, pos1))"
    by blast
  let ?res = "foldl (storeAt p) initialResult tr"
  have keys: "map rowKey (results ?res) =
      [(s, v, tm, strike). s \<leftarrow> s0List p, v \<leftarrow> volList p, tm \<leftarrow> maturities p, strike \<leftarrow> strikes p]"
    unfolding rowKey_foldl_storeAt tr keys_cross_product by (simp add: initialResult_def)
  have "length (results ?res) = length (map rowKey (results ?res))"
    by simp
  also have "\<dots> = 25 * length (maturities p) * length (strikes p)"
    unfolding keys length_cross_product by simp
  finally show ?thesis
    using run keys by blast
qed

theorem rows_cover_cross_product_witness:
  "fairSource halfSource \<and> validParams exampleParams
   \<and> (\<exists>res pos1. runFullSimulation halfSource 0 exampleParams = Some (Inr (res, pos1))
        \<and> map rowKey (results res) =
            [(s, v, tm, strike). s \<leftarrow> s0List exampleParams, v \<leftarrow> volList exampleParams,
               tm \<leftarrow> [4, 5, 6], strike \<leftarrow> [50000, 52000]]
        \<and> length (results res) = 150)"
proof -
  have valid: "validParams exampleParams"
    by (simp add: validParams_def exampleParams_def)
  have fields: "maturities exampleParams = [4, 5, 6]" "strikes exampleParams = [50000, 52000]"
    by (simp_all add: exampleParams_def)
  show ?thesis
    using half_fair valid rows_cover_cross_product [OF half_fair valid, of 0]
    unfolding fields by simp
qed

lemma central_storeAt:
  "centralDistribution (storeAt p acc (tri, xs)) =
     (if isCentral p tri then xs else centralDistribution acc)"
  by (cases tri) (simp add: storeAt_def storeScenario_def isCentral_def Let_def)

lemma central_foldl_storeAt:
  "centralDistribution (foldl (storeAt p) acc tr) =
     (case filter (\<lambda>x. isCentral p (fst x)) tr of
        [] \<Rightarrow> centralDistribution acc
      | _ # _ \<Rightarrow> snd (last (filter (\<lambda>x. isCentral p (fst x)) tr)))"
proof (induction tr rule: rev_induct)
  case Nil
  show ?case by simp
next
  case (snoc x tr)
  obtain tri xs where x: "x = (tri, xs)" by (cases x)
  show ?case
    by (simp add: x central_storeAt snoc.IH split: list.split)
qed

lemma upt_5: "[0..<5] = [0, 1, 2, 3, 4]"
  by (simp add: upt_rec)

lemma central_triples:
  assumes "maturities p \<noteq> []"
  shows "filter (isCentral p) (scenarioTriples p) =
     map (\<lambda>m. (2, 2, m))
       (filter (\<lambda>m. maturities p ! m = maturities p ! 0) [0..<length (maturities p)])"
proof -
  have "targetDistT p = Some (maturities p ! 0)"
    using assms by (cases "maturities p") (simp_all add: targetDistT_def)
  then show ?thesis
    by (simp add: scenarioTriples_def upt_5 isCentral_def filter_map comp_def)
qed

lemma central_is_last_match:
  assumes "fairSource U" and "0 \<le> nPaths p" and "maturities p \<noteq> []"
  shows "\<exists>res pos1. runFullSimulation U pos p = Some (Inr (res, pos1))
     \<and> simulatedSample U pos p (2, 2, centralMaturityIndex p) = Some (centralDistribution res)
     \<and> length (centralDistribution res) = nat (nPaths p)"
proof -
  from run_returns [OF assms(1,2)] obtain tr pos1 where
    trace: "sampleTrace U p (scenarioTriples p) pos = Some tr"
    and tr: "map fst tr = scenarioTriples p"
    and len: "\<forall>x\<in>set tr. length (snd x) = nat (nPaths p)"
    and run: "runFullSimulation U pos p = Some (Inr (foldl (storeAt p) initialResult tr, pos1))"
    by blast
  let ?res = "foldl (storeAt p) initialResult tr"
  let ?ms = "filter (\<lambda>x. isCentral p (fst x)) tr"
  let ?idx = "filter (\<lambda>m. maturities p ! m = maturities p ! 0) [0..<length (maturities p)]"
  have "map fst ?ms = filter (isCentral p) (map fst tr)"
    by (simp add: filter_map comp_def)
  then have keys: "map fst ?ms = map (\<lambda>m. (2, 2, m)) ?idx"
    by (simp add: tr central_triples [OF assms(3)])
  have "0 \<in> set ?idx"
    using assms(3) by simp
  then have idx: "?idx \<noteq> []"
    by (metis empty_iff empty_set)
  with keys have ms: "?ms \<noteq> []"
    by (metis map_is_Nil_conv)
  have "fst (last ?ms) = last (map fst ?ms)"
    using ms by (simp add: last_map)
  also have "\<dots> = (2, 2, centralMaturityIndex p)"
    unfolding keys using idx by (simp add: last_map centralMaturityIndex_def)
  finally have key: "fst (last ?ms) = (2, 2, centralMaturityIndex p)" .
  have central: "centralDistribution ?res = snd (last ?ms)"
    using ms by (simp add: central_foldl_storeAt split: list.split)
  have "last ?ms \<in> set ?ms"
    using ms by (rule last_in_set)
  then have mem: "last ?ms \<in> set tr"
    by simp
  then have "((2, 2, centralMaturityIndex p), centralDistribution ?res) \<in> set tr"
    using key central by (metis prod.collapse)
  moreover have "distinct (map fst tr)"
    by (simp add: tr distinct_scenarioTriples)
  ultimately have "map_of tr (2, 2, centralMaturityIndex p) = Some (centralDistribution ?res)"
    by (simp add: map_of_is_SomeI)
  then have "simulatedSample U pos p (2, 2, centralMaturityIndex p) = Some (centralDistribution ?res)"
    by (simp add: simulatedSample_def trace)
  moreover have "length (centralDistribution ?res) = nat (nPaths p)"
    using len mem central by simp
  ultimately show ?thesis
    using run by blast
qed

lemma centralMaturityIndex_first:
  assumes "maturities p \<noteq> []" and "maturities p ! 0 \<notin> set (tl (maturities p))"
  shows "centralMaturityIndex p = 0"
proof -
  have "\<forall>m\<in>set [Suc 0..<length (maturities p)]. maturities p ! m \<noteq> maturities p ! 0"
  proof
    fix m
    assume "m \<in> set [Suc 0..<length (maturities p)]"
    then have "Suc 0 \<le> m" and "m < length (maturities p)"
      by simp_all
    then obtain n where m: "m = Suc n" "n < length (tl (maturities p))"
      by (cases m) simp_all
    then have "maturities p ! m = tl (maturities p) ! n"
      by (simp add: nth_tl)
    with m have "maturities p ! m \<in> set (tl (maturities p))"
      by simp
    with assms(2) show "maturities p ! m \<noteq> maturities p ! 0"
      by auto
  qed
  then have "filter (\<lambda>m. maturities p ! m = maturities p ! 0) [Suc 0..<length (maturities p)] = []"
    by (simp add: filter_empty_conv)
  then show ?thesis
    using assms(1) by (simp add: centralMaturityIndex_def upt_conv_Cons)
qed

text \<open>
  C2 (amended). For valid parameters (and a fair random source) the run returns, and its
  central distribution is exactly the terminal-price sample simulated for the triple
  (2, 2, m), where m is the last maturity index whose maturity value equals the first
  maturity; it has length nPaths. When the first maturity value does not occur again, m
  is 0.
\<close>

theorem central_distribution_last_matching_maturity:
  assumes "fairSource U" and "validParams p"
  shows "(\<exists>res pos1. runFullSimulation U pos p = Some (Inr (res, pos1))
      \<and> simulatedSample U pos p (2, 2, centralMaturityIndex p) = Some (centralDistribution res)
      \<and> length (centralDistribution res) = nat (nPaths p))
    \<and> (maturities p ! 0 \<notin> set (tl (maturities p)) \<longrightarrow> centralMaturityIndex p = 0)"
proof -
  from assms(2) have "0 \<le> nPaths p" and "maturities p \<noteq> []"
    by (simp_all add: validParams_def)
  then show ?thesis
    using central_is_last_match [OF assms(1), of p pos] centralMaturityIndex_first [of p]
    by blast
qed

theorem central_distribution_last_matching_maturity_witness:
  "fairSource halfSource \<and> validParams exampleParams
   \<and> (\<exists>res pos1. runFullSimulation halfSource 0 exampleParams = Some (Inr (res, pos1))
        \<and> simulatedSample halfSource 0 exampleParams (2, 2, 0) = Some (centralDistribution res)
        \<and> length (centralDistribution res) = 10000)"
proof -
  have valid: "validParams exampleParams"
    by (simp add: validParams_def exampleParams_def)
  have once: "maturities exampleParams ! 0 \<notin> set (tl (maturities exampleParams))"
    by (simp add: exampleParams_def)
  have paths: "nat (nPaths exampleParams) = 10000"
    by (simp add: exampleParams_def)
  show ?thesis
    using half_fair valid once paths
      central_distribution_last_matching_maturity [OF half_fair valid, of 0]
    by auto
qed

lemma column_zero_iff:
  "getDetailedColumnIndex (int i) (int j) (int m) = 0 \<longleftrightarrow> (i, j, m) = (2, 2, 0)"
  by (auto simp add: getDetailedColumnIndex_def Let_def)

lemma column_bound: "- 1 \<le> getDetailedColumnIndex (int i) (int j) (int m)"
  by (simp add: getDetailedColumnIndex_def Let_def)

lemma jsArraySet_nonempty: "jsArraySet xs n v \<noteq> []"
  by (auto simp add: jsArraySet_def)

lemma jsArraySet_slot0:
  "xs \<noteq> [] \<Longrightarrow> jsArraySet xs n v ! 0 = (if n = 0 then Some v else xs ! 0)"
  by (auto simp add: jsArraySet_def nth_append nth_list_update)

lemma slot0_storeAt:
  assumes "detailedPaths acc \<noteq> []"
  shows "detailedPaths (storeAt p acc (tri, xs)) \<noteq> []
     \<and> detailedPaths (storeAt p acc (tri, xs)) ! 0 =
         (if tri = (2, 2, 0) then Some xs else detailedPaths acc ! 0)"
proof -
  obtain i j m where tri: "tri = (i, j, m)" by (cases tri)
  let ?c = "getDetailedColumnIndex (int i) (int j) (int m)"
  have zero: "nat ?c = 0 \<longleftrightarrow> ?c = 0 \<or> ?c = - 1"
    using column_bound [of i j m] by auto
  show ?thesis
    using assms zero column_zero_iff [of i j m]
    by (auto simp add: tri storeAt_def storeScenario_def Let_def jsArraySet_nonempty jsArraySet_slot0)
qed

lemma slot0_foldl_storeAt:
  assumes "detailedPaths acc \<noteq> []"
  shows "detailedPaths (foldl (storeAt p) acc tr) \<noteq> []
     \<and> detailedPaths (foldl (storeAt p) acc tr) ! 0 =
        (case filter (\<lambda>x. fst x = (2, 2, 0)) tr of
           [] \<Rightarrow> detailedPaths acc ! 0
         | _ # _ \<Rightarrow> Some (snd (last (filter (\<lambda>x. fst x = (2, 2, 0)) tr))))"
proof (induction tr rule: rev_induct)
  case Nil
  show ?case using assms by simp
next
  case (snoc x tr)
  obtain tri xs where x: "x = (tri, xs)" by (cases x)
  from snoc.IH have ne: "detailedPaths (foldl (storeAt p) acc tr) \<noteq> []" by blast
  show ?case
    using snoc.IH slot0_storeAt [OF ne, of p tri xs]
    by (simp add: x split: list.split)
qed

text \<open>
  C10. For valid parameters whose first maturity value does not occur again later in
  the maturities list (and a fair random source), the run returns, and the sample in
  detailed slot 0, the slot of the triple (2, 2, 0), is the central distribution: both
  are the terminal-price sample simulated for the triple (2, 2, 0), of nPaths prices.
\<close>

theorem central_equals_slot_zero:
  assumes "fairSource U" and "validParams p"
    and "maturities p ! 0 \<notin> set (tl (maturities p))"
  shows "\<exists>res pos1. runFullSimulation U pos p = Some (Inr (res, pos1))
     \<and> getDetailedColumnIndex 2 2 0 = 0
     \<and> 0 < length (detailedPaths res)
     \<and> detailedPaths res ! 0 = Some (centralDistribution res)
     \<and> simulatedSample U pos p (2, 2, 0) = Some (centralDistribution res)
     \<and> length (centralDistribution res) = nat (nPaths p)"
proof -
  from assms(2) have nn: "0 \<le> nPaths p" and mats: "maturities p \<noteq> []"
    by (simp_all add: validParams_def)
  have first: "centralMaturityIndex p = 0"
    using mats assms(3) by (rule centralMaturityIndex_first)
  from central_is_last_match [OF assms(1) nn mats, of pos] obtain res pos1 where
    run: "runFullSimulation U pos p = Some (Inr (res, pos1))"
    and sample: "simulatedSample U pos p (2, 2, 0) = Some (centralDistribution res)"
    and len: "length (centralDistribution res) = nat (nPaths p)"
    unfolding first by blast
  from run_returns [OF assms(1) nn, of pos] obtain tr pos2 where
    tr: "map fst tr = scenarioTriples p"
    and run2: "runFullSimulation U pos p = Some (Inr (foldl (storeAt p) initialResult tr, pos2))"
    by blast
  from run run2 have res: "res = foldl (storeAt p) initialResult tr"
    by simp
  have target: "targetDistT p = Some (maturities p ! 0)"
    using mats by (cases "maturities p") (simp_all add: targetDistT_def)
  have same: "isCentral p (fst x) \<longleftrightarrow> fst x = (2, 2, 0)" if "x \<in> set tr" for x
  proof -
    obtain i j m where x: "fst x = (i, j, m)" by (cases "fst x")
    from that have "fst x \<in> set (scenarioTriples p)"
      unfolding tr [symmetric] by simp
    then have m: "m < length (maturities p)"
      by (simp add: x set_scenarioTriples)
    have "maturities p ! m = maturities p ! 0 \<longleftrightarrow> m = 0"
    proof (cases m)
      case 0
      then show ?thesis by simp
    next
      case (Suc n)
      with m have "maturities p ! m = tl (maturities p) ! n" "n < length (tl (maturities p))"
        by (simp_all add: nth_tl)
      then have "maturities p ! m \<in> set (tl (maturities p))"
        by (metis nth_mem)
      with assms(3) Suc show ?thesis by auto
    qed
    then show ?thesis
      by (auto simp add: x isCentral_def target)
  qed
  then have filters: "filter (\<lambda>x. isCentral p (fst x)) tr = filter (\<lambda>x. fst x = (2, 2, 0)) tr"
    by (simp cong: filter_cong)
  have "(2, 2, 0) \<in> set (map fst tr)"
    using mats by (simp add: tr set_scenarioTriples)
  then obtain y where "y \<in> set tr" "fst y = (2, 2, 0)"
    by auto
  then have ne: "filter (\<lambda>x. fst x = (2, 2, 0)) tr \<noteq> []"
    by (auto simp add: filter_empty_conv)
  have init: "detailedPaths initialResult \<noteq> []"
    by (simp add: initialResult_def)
  have "detailedPaths res \<noteq> []"
    and "detailedPaths res ! 0 = Some (centralDistribution res)"
    using slot0_foldl_storeAt [OF init, of p tr] ne
    by (simp_all add: res central_foldl_storeAt filters split: list.split)
  moreover have "getDetailedColumnIndex 2 2 0 = 0"
    by (simp add: getDetailedColumnIndex_def)
  ultimately show ?thesis
    using run sample len by auto
qed

theorem central_equals_slot_zero_witness:
  "fairSource halfSource \<and> validParams exampleParams
   \<and> maturities exampleParams ! 0 \<notin> set (tl (maturities exampleParams))
   \<and> (\<exists>res pos1. runFullSimulation halfSource 0 exampleParams = Some (Inr (res, pos1))
        \<and> getDetailedColumnIndex 2 2 0 = 0
        \<and> 0 < length (detailedPaths res)
        \<and> detailedPaths res ! 0 = Some (centralDistribution res)
        \<and> simulatedSample halfSource 0 exampleParams (2, 2, 0) = Some (centralDistribution res)
        \<and> length (centralDistribution res) = 10000)"
proof -
  have valid: "validParams exampleParams"
    by (simp add: validParams_def exampleParams_def)
  have once: "maturities exampleParams ! 0 \<notin> set (tl (maturities exampleParams))"
    by (simp add: exampleParams_def)
  have paths: "nat (nPaths exampleParams) = 10000"
    by (simp add: exampleParams_def)
  show ?thesis
    using half_fair valid once central_equals_slot_zero [OF half_fair valid once, of 0]
    unfolding paths by blast
qed

lemma gaussianRandom_nonzero:
  "U pos \<noteq> 0 \<Longrightarrow> U (pos + 1) \<noteq> 0 \<Longrightarrow>
   gaussianRandom U pos = Some (sqrt (- 2 * ln (U pos)) * cos (2 * pi * U (pos + 1)), pos + 2)"
  by (simp add: gaussianRandom_def drawNonZero_zero [of U pos] drawNonZero_zero [of U "Suc pos"]
      drawNonZero_nonzero)

lemma pathSimulator_one:
  "U pos \<noteq> 0 \<Longrightarrow> U (pos + 1) \<noteq> 0 \<Longrightarrow>
   pathSimulator U S sg tm rd qd 1 pos =
     Some (Inr ([S * exp ((rd - qd - 0.5 * sg * sg) * tm
                  + sg * sqrt tm * (sqrt (- 2 * ln (U pos)) * cos (2 * pi * U (pos + 1))))],
                pos + 2))"
  by (simp add: pathSimulator_def gaussianRandom_nonzero)

lemma recurring_axes:
  "s0List recurringParams = [1, 1, 1, 1, 1]" "volList recurringParams = [1, 1, 1, 1, 1]"
  by (simp_all add: s0List_def volList_def recurringParams_def generateGeometricScenarios_def
      generateArithmeticScenarios_def)

lemma recurring_fields:
  "maturities recurringParams = [1, 1]" "nPaths recurringParams = 1"
  "r recurringParams = 0" "q recurringParams = 0"
  by (simp_all add: recurringParams_def)


lemma recurring_sample0:
  "simulatedSample recurringSource 0 recurringParams (2, 2, 0) = Some [exp (- (1 / 2))]"
  by (simp add: simulatedSample_def scenarioTriples_def upt_5 recurring_fields upt_rec
       recurring_axes pathSimulator_one recurringSource_def)

lemma recurring_sample1:
  "simulatedSample recurringSource 0 recurringParams (2, 2, 1) =
     Some [exp (- sqrt (- (2 * ln (1 / 2))) - 1 / 2)]"
  by (simp add: simulatedSample_def scenarioTriples_def upt_5 recurring_fields upt_rec
       recurring_axes pathSimulator_one recurringSource_def)

lemma recurring_fair: "fairSource recurringSource"
  by (rule fairSource_nonzero) (simp add: recurringSource_def)

text \<open>
  C2 as stated fails: with maturities [1, 1] the central distribution is the sample of
  the triple (2, 2, 1), which differs from the sample of the triple (2, 2, 0).
\<close>

theorem central_distribution_not_first_index:
  "fairSource recurringSource \<and> validParams recurringParams
   \<and> returned (runFullSimulation recurringSource 0 recurringParams) \<noteq> None
   \<and> map_option centralDistribution (returned (runFullSimulation recurringSource 0 recurringParams))
       \<noteq> simulatedSample recurringSource 0 recurringParams (2, 2, 0)"
proof -
  have valid: "validParams recurringParams"
    by (simp add: validParams_def recurringParams_def)
  have "centralMaturityIndex recurringParams = 1"
    by (simp add: centralMaturityIndex_def recurring_fields upt_rec)
  with central_is_last_match [OF recurring_fair, of recurringParams 0]
  obtain res pos1 where
    run: "runFullSimulation recurringSource 0 recurringParams = Some (Inr (res, pos1))"
    and central: "simulatedSample recurringSource 0 recurringParams (2, 2, 1)
                    = Some (centralDistribution res)"
    by (auto simp add: recurring_fields)
  have "ln (1 / 2 :: real) \<noteq> 0"
    by simp
  then have "exp (- sqrt (- (2 * ln (1 / 2))) - 1 / 2) \<noteq> (exp (- (1 / 2)) :: real)"
    by simp
  then have "centralDistribution res \<noteq> [exp (- (1 / 2))]"
    using central [unfolded recurring_sample1] by auto
  then show ?thesis
    using recurring_fair valid by (simp add: run returned_def recurring_sample0)
qed

lemma length_jsArraySet: "length (jsArraySet xs n v) = max (length xs) (n + 1)"
  by (auto simp add: jsArraySet_def)

lemma length_detailed_storeAt:
  "length (detailedPaths (storeAt p acc ((i, j, m), xs))) =
     (if getDetailedColumnIndex (int i) (int j) (int m) \<noteq> - 1
      then max (length (detailedPaths acc)) (nat (getDetailedColumnIndex (int i) (int j) (int m)) + 1)
      else length (detailedPaths acc))"
  by (simp add: storeAt_def storeScenario_def Let_def length_jsArraySet)

lemma length_detailed_foldl:
  "length (detailedPaths (foldl (storeAt p) acc tr)) =
     foldl (\<lambda>n (i, j, m).
              if getDetailedColumnIndex (int i) (int j) (int m) \<noteq> - 1
              then max n (nat (getDetailedColumnIndex (int i) (int j) (int m)) + 1)
              else n)
       (length (detailedPaths acc)) (map fst tr)"
proof (induction tr arbitrary: acc)
  case Nil
  show ?case by simp
next
  case (Cons x tr)
  obtain i j m xs where x: "x = ((i, j, m), xs)" by (cases x) auto
  show ?case
    by (simp add: x Cons.IH length_detailed_storeAt)
qed

text \<open>
  C9. With four maturities the detailed collection does not keep its 27 slots: the run
  returns it with 35.
\<close>

theorem four_maturities_grow_detailed:
  "fairSource halfSource \<and> validParams fourMaturityParams
   \<and> map_option (\<lambda>res. length (detailedPaths res))
        (returned (runFullSimulation halfSource 0 fourMaturityParams)) = Some 35"
proof -
  have valid: "validParams fourMaturityParams"
    by (simp add: validParams_def fourMaturityParams_def)
  then have "0 \<le> nPaths fourMaturityParams"
    by (simp add: validParams_def)
  from run_returns [OF half_fair this] obtain tr pos1 where
    tr: "map fst tr = scenarioTriples fourMaturityParams"
    and run: "runFullSimulation halfSource 0 fourMaturityParams
               = Some (Inr (foldl (storeAt fourMaturityParams) initialResult tr, pos1))"
    by blast
  have triples: "scenarioTriples fourMaturityParams =
      concat (map (\<lambda>i. concat (map (\<lambda>j. map (\<lambda>m. (i, j, m)) [0, 1, 2, 3]) [0, 1, 2, 3, 4]))
        [0, 1, 2, 3, 4])"
    by (simp add: scenarioTriples_def fourMaturityParams_def upt_rec)
  have "length (detailedPaths (foldl (storeAt fourMaturityParams) initialResult tr)) = 35"
    unfolding length_detailed_foldl tr triples
    by (simp add: initialResult_def getDetailedColumnIndex_def)
  then show ?thesis
    using half_fair valid by (simp add: run returned_def)
qed

lemma scenarioStepAt_negative:
  "nPaths p < 0 \<Longrightarrow> scenarioStepAt U p x st = Some (Inl RangeError)"
  by (cases x) (simp add: scenarioStepAt_def scenarioStep_def pathSimulator_def)

lemma scenarioTriples_empty: "scenarioTriples p = [] \<longleftrightarrow> maturities p = []"
  by (simp add: scenarioTriples_def upt_5)

lemma scenarioStepAt_returned:
  assumes "scenarioStepAt U p x (acc, pos) = Some (Inr (acc1, pos1))"
  shows "\<exists>xs. acc1 = storeAt p acc (x, xs)"
proof -
  obtain i j m where x: "x = (i, j, m)" by (cases x)
  show ?thesis
    using assms
    by (auto simp add: x scenarioStepAt_def scenarioStep_def storeAt_def
        split: option.splits sum.splits)
qed

lemma results_storeAt_no_strike:
  "strikes p = [] \<Longrightarrow> results (storeAt p acc (x, xs)) = results acc"
  by (cases x) (simp add: storeAt_def storeScenario_def Let_def)

lemma forEach_no_strike:
  assumes "strikes p = []"
  shows "forEach (scenarioStepAt U p) ts (acc, pos) = Some (Inr (acc1, pos1))
           \<Longrightarrow> results acc1 = results acc"
proof (induction ts arbitrary: acc pos)
  case Nil
  then show ?case by simp
next
  case (Cons x ts)
  from Cons.prems obtain acc2 pos2 where
    step: "scenarioStepAt U p x (acc, pos) = Some (Inr (acc2, pos2))"
    and rest: "forEach (scenarioStepAt U p) ts (acc2, pos2) = Some (Inr (acc1, pos1))"
    by (auto split: option.splits sum.splits)
  from scenarioStepAt_returned [OF step] obtain xs where "acc2 = storeAt p acc (x, xs)"
    by blast
  then have "results acc2 = results acc"
    by (simp add: results_storeAt_no_strike [OF assms])
  with Cons.IH [OF rest] show ?case
    by simp
qed

lemma pathSimulator_zero:
  "pathSimulator U S sg tm rd qd 0 pos = Some (Inr ([], pos))"
  by (simp add: pathSimulator_def)

lemma run_trace_zero:
  assumes "nPaths p = 0"
  shows "\<exists>tr. map fst tr = ts \<and> (\<forall>x\<in>set tr. snd x = [])
           \<and> forEach (scenarioStepAt U p) ts (acc, pos) = Some (Inr (foldl (storeAt p) acc tr, pos))"
proof (induction ts arbitrary: acc)
  case Nil
  show ?case by simp
next
  case (Cons x ts)
  obtain i j m where x: "x = (i, j, m)" by (cases x)
  have step: "scenarioStepAt U p (i, j, m) (acc, pos) = Some (Inr (storeAt p acc ((i, j, m), []), pos))"
    by (simp add: scenarioStepAt_def scenarioStep_def assms pathSimulator_zero storeAt_def)
  obtain tr where
    tr: "map fst tr = ts" "\<forall>x\<in>set tr. snd x = []"
        "forEach (scenarioStepAt U p) ts (storeAt p acc ((i, j, m), []), pos)
           = Some (Inr (foldl (storeAt p) (storeAt p acc ((i, j, m), [])) tr, pos))"
    using Cons.IH by blast
  show ?case
  proof (intro exI conjI)
    show "map fst (((i, j, m), []) # tr) = x # ts"
      by (simp add: x tr)
    show "\<forall>y\<in>set (((i, j, m), []) # tr). snd y = []"
      using tr(2) by simp
    show "forEach (scenarioStepAt U p) (x # ts) (acc, pos)
            = Some (Inr (foldl (storeAt p) acc (((i, j, m), []) # tr), pos))"
      by (simp add: x step tr(3))
  qed
qed

lemma central_foldl_empty_samples:
  assumes "\<forall>x\<in>set tr. snd x = []" and "centralDistribution acc = []"
  shows "centralDistribution (foldl (storeAt p) acc tr) = []"
proof (cases "filter (\<lambda>x. isCentral p (fst x)) tr")
  case Nil
  then show ?thesis
    using assms(2) by (simp add: central_foldl_storeAt)
next
  case (Cons y ys)
  then have "filter (\<lambda>x. isCentral p (fst x)) tr \<noteq> []"
    by simp
  then have "last (filter (\<lambda>x. isCentral p (fst x)) tr) \<in> set (filter (\<lambda>x. isCentral p (fst x)) tr)"
    by (rule last_in_set)
  then have "last (filter (\<lambda>x. isCentral p (fst x)) tr) \<in> set tr"
    by simp
  with assms(1) have "snd (last (filter (\<lambda>x. isCentral p (fst x)) tr)) = []"
    by blast
  then show ?thesis
    using Cons by (simp add: central_foldl_storeAt)
qed

text \<open>
  C1 (amended). The run validates nothing. With a negative path count and a non-empty
  maturities list it fails: the first allocation raises a RangeError and there is no
  result. With an empty maturities list it does not fail: it returns the empty result
  (no rows, an empty central distribution, 27 empty slots) and draws nothing. With a
  path count of 0 it does not fail: it returns 25 * M * K rows and an empty central
  distribution, and draws nothing. With an empty strikes list no result it returns has
  a row.
\<close>

theorem run_validates_nothing:
  "(nPaths p < 0 \<and> maturities p \<noteq> [] \<longrightarrow> runFullSimulation U pos p = Some (Inl RangeError))
   \<and> (maturities p = [] \<longrightarrow> runFullSimulation U pos p = Some (Inr (initialResult, pos)))
   \<and> (nPaths p = 0 \<longrightarrow>
        (\<exists>res. runFullSimulation U pos p = Some (Inr (res, pos))
           \<and> length (results res) = 25 * length (maturities p) * length (strikes p)
           \<and> centralDistribution res = []))
   \<and> (strikes p = [] \<longrightarrow>
        (\<forall>res pos1. runFullSimulation U pos p = Some (Inr (res, pos1)) \<longrightarrow> results res = []))"
proof -
  have empty: "runFullSimulation U pos p = Some (Inr (initialResult, pos))" if "maturities p = []"
    using that scenarioTriples_empty [of p] by (simp add: run_one_pass)
  have neg: "runFullSimulation U pos p = Some (Inl RangeError)"
    if "nPaths p < 0" "maturities p \<noteq> []"
  proof -
    from that(2) obtain x rest where "scenarioTriples p = x # rest"
      using scenarioTriples_empty [of p] by (cases "scenarioTriples p") auto
    then show ?thesis
      by (simp add: run_one_pass scenarioStepAt_negative [OF that(1)])
  qed
  have zero: "\<exists>res. runFullSimulation U pos p = Some (Inr (res, pos))
           \<and> length (results res) = 25 * length (maturities p) * length (strikes p)
           \<and> centralDistribution res = []" if "nPaths p = 0"
  proof -
    from run_trace_zero [OF that, of "scenarioTriples p" U initialResult pos] obtain tr where
      tr: "map fst tr = scenarioTriples p"
      and samples: "\<forall>x\<in>set tr. snd x = []"
      and run: "runFullSimulation U pos p = Some (Inr (foldl (storeAt p) initialResult tr, pos))"
      unfolding run_one_pass by blast
    let ?res = "foldl (storeAt p) initialResult tr"
    have keys: "map rowKey (results ?res) =
        [(s, v, tm, strike). s \<leftarrow> s0List p, v \<leftarrow> volList p, tm \<leftarrow> maturities p, strike \<leftarrow> strikes p]"
      unfolding rowKey_foldl_storeAt tr keys_cross_product by (simp add: initialResult_def)
    have "length (results ?res) = length (map rowKey (results ?res))"
      by simp
    also have "\<dots> = 25 * length (maturities p) * length (strikes p)"
      unfolding keys length_cross_product by simp
    finally have rows: "length (results ?res) = 25 * length (maturities p) * length (strikes p)" .
    have "centralDistribution ?res = []"
      by (rule central_foldl_empty_samples [OF samples]) (simp add: initialResult_def)
    with run rows show ?thesis
      by blast
  qed
  have norows: "results res = []"
    if "strikes p = []" "runFullSimulation U pos p = Some (Inr (res, pos1))" for res pos1
    using forEach_no_strike [OF that(1) that(2) [unfolded run_one_pass]]
    by (simp add: initialResult_def)
  show ?thesis
    using neg empty zero norows by blast
qed

lemma noStrike_sample:
  "simulatedSample halfSource 0 noStrikeParams (2, 2, 0) = Some [50000]"
  by (simp add: simulatedSample_def scenarioTriples_def upt_5 upt_rec noStrikeParams_def
       s0List_def volList_def generateGeometricScenarios_def generateArithmeticScenarios_def
       pathSimulator_one halfSource_def)

text \<open>
  C1 as stated fails: with an empty strikes list (one maturity, one path) the run does
  not fail; it simulates and returns a central distribution.
\<close>

theorem empty_strikes_run_returns:
  "strikes noStrikeParams = []
   \<and> returned (runFullSimulation halfSource 0 noStrikeParams) \<noteq> None
   \<and> map_option centralDistribution (returned (runFullSimulation halfSource 0 noStrikeParams))
       = Some [50000]"
proof -
  have "centralMaturityIndex noStrikeParams = 0"
    by (simp add: centralMaturityIndex_def noStrikeParams_def)
  with central_is_last_match [OF half_fair, of noStrikeParams 0]
  obtain res pos1 where
    run: "runFullSimulation halfSource 0 noStrikeParams = Some (Inr (res, pos1))"
    and central: "simulatedSample halfSource 0 noStrikeParams (2, 2, 0)
                    = Some (centralDistribution res)"
    by (auto simp add: noStrikeParams_def)
  from central [unfolded noStrike_sample] have "centralDistribution res = [50000]"
    by simp
  then show ?thesis
    by (simp add: run returned_def) (simp add: noStrikeParams_def)
qed

theorem run_validates_nothing_witness:
  "runFullSimulation halfSource 0 negativePathsParams = Some (Inl RangeError)
   \<and> runFullSimulation halfSource 0 noMaturityParams = Some (Inr (initialResult, 0))
   \<and> (\<exists>res. runFullSimulation halfSource 0 zeroPathsParams = Some (Inr (res, 0))
         \<and> length (results res) = 150 \<and> centralDistribution res = [])
   \<and> (\<exists>res pos1. runFullSimulation halfSource 0 noStrikeParams = Some (Inr (res, pos1))
         \<and> results res = [])"
proof -
  have a: "nPaths negativePathsParams < 0 \<and> maturities negativePathsParams \<noteq> []"
    by (simp add: negativePathsParams_def)
  have b: "maturities noMaturityParams = []"
    by (simp add: noMaturityParams_def)
  have c: "nPaths zeroPathsParams = 0"
    and c': "25 * length (maturities zeroPathsParams) * length (strikes zeroPathsParams) = 150"
    by (simp_all add: zeroPathsParams_def)
  have d: "strikes noStrikeParams = []"
    by (simp add: noStrikeParams_def)
  have "0 \<le> nPaths noStrikeParams"
    by (simp add: noStrikeParams_def)
  from run_returns [OF half_fair this, of 0] obtain res pos1 where
    run: "runFullSimulation halfSource 0 noStrikeParams = Some (Inr (res, pos1))"
    by blast
  have one: "runFullSimulation halfSource 0 negativePathsParams = Some (Inl RangeError)"
    using a run_validates_nothing [of negativePathsParams halfSource 0] by blast
  have two: "runFullSimulation halfSource 0 noMaturityParams = Some (Inr (initialResult, 0))"
    using b run_validates_nothing [of noMaturityParams halfSource 0] by blast
  have three: "\<exists>res. runFullSimulation halfSource 0 zeroPathsParams = Some (Inr (res, 0))
         \<and> length (results res) = 150 \<and> centralDistribution res = []"
    using c run_validates_nothing [of zeroPathsParams halfSource 0] unfolding c' by blast
  have four: "results res = []"
    using d run run_validates_nothing [of noStrikeParams halfSource 0] by blast
  show ?thesis
    using one two three four run by blast
qed

end
